theory Spec2Isabelle
  imports Main
begin

section \<open>The git watcher of managed codebase indexing\<close>

text \<open>
  The development embeds \<^verbatim>\<open>createGitWatcher\<close> (second part of
  \<^verbatim>\<open>src/scripts/create-rollback-pr.js\<close>, lines 200-617) with its three closures
  \<^verbatim>\<open>handleGitChange\<close>, \<^verbatim>\<open>handleBranchChange\<close> and \<^verbatim>\<open>handleCommit\<close>.

  The collaborators imported by the module (\<^verbatim>\<open>isDetachedHead\<close>, \<^verbatim>\<open>getGitState\<close>,
  \<^verbatim>\<open>getServerManifest\<close>, \<^verbatim>\<open>scanDirectory\<close>, \<^verbatim>\<open>Date.now\<close>) are the environment: what
  each call returns or throws is an input of the model, and every call is recorded in a
  trace together with every invocation of the \<^verbatim>\<open>onStateChange\<close> callback and of the
  telemetry service. Output to \<^verbatim>\<open>console\<close> and \<^verbatim>\<open>logger\<close> is not modelled; the
  logger and the telemetry service are taken not to throw.

  The callback is code of the caller. The two \<^verbatim>\<open>catch\<close> blocks that report an error
  status (lines 409-414 and 492-497) call it with no \<^verbatim>\<open>try\<close> around the call, so what
  it does when it is handed an error status (it returns, or throws) is an input of the
  model as well. Handed any other status it is taken to return.

  The closures are \<^verbatim>\<open>async\<close>: each runs atomically from one \<^verbatim>\<open>await\<close> to the next,
  and other events of the host (a file-watcher notification, a tick of the poll timer,
  the disposal of the watcher) can only happen while it is suspended at an \<^verbatim>\<open>await\<close>.
  The model is therefore a step function over events, with the suspended invocations
  kept in the state.
\<close>

subsection \<open>Data\<close>

text \<open>What a call of a collaborator does: it returns a value, or throws. A thrown value is
  kept as the text the source extracts from it
  (\<^verbatim>\<open>error instanceof Error ? error.message : String(error)\<close>).\<close>

datatype 'a outcome = Returns 'a | Throws string

text \<open>\<^verbatim>\<open>interface GitStateSnapshot\<close>, lines 180-184.\<close>

record GitStateSnapshot =
  branch :: string
  commit :: string
  isDetached :: bool

text \<open>The value \<^verbatim>\<open>getServerManifest\<close> resolves to; the source reads the three fields
  \<^verbatim>\<open>totalFiles\<close>, \<^verbatim>\<open>totalChunks\<close> and \<^verbatim>\<open>lastUpdated\<close> (lines 398-400).\<close>

record ServerManifest =
  manifestTotalFiles :: nat
  manifestTotalChunks :: nat
  manifestLastUpdated :: int

text \<open>The argument of the progress callback handed to \<^verbatim>\<open>scanDirectory\<close> (line 370).\<close>

record ScanProgress =
  filesProcessed :: nat
  filesTotal :: nat
  chunksIndexed :: nat

text \<open>The value \<^verbatim>\<open>scanDirectory\<close> resolves to: the source reads \<^verbatim>\<open>success\<close>,
  \<^verbatim>\<open>filesProcessed\<close>, \<^verbatim>\<open>chunksIndexed\<close> and \<^verbatim>\<open>errors.length\<close>.\<close>

record ScanResult =
  success :: bool
  resultFilesProcessed :: nat
  resultChunksIndexed :: nat
  errors :: "string list"

text \<open>\<^verbatim>\<open>IndexerState\<close>, the argument of \<^verbatim>\<open>onStateChange\<close>. A field the object literal of
  the source leaves out, or sets to \<^verbatim>\<open>undefined\<close>, is \<open>None\<close>.\<close>

datatype Status = Idle | Scanning | Watching | Error

record IndexerState =
  status :: Status
  message :: string
  gitBranch :: "string option"
  error :: "string option"
  lastSyncTime :: "int option"
  totalFiles :: "nat option"
  totalChunks :: "nat option"
  manifest :: "ServerManifest option"

text \<open>The trace: calls of the collaborators, of the callback and of telemetry, in order.
  \<^verbatim>\<open>getServerManifest\<close> is recorded with its branch argument and \<^verbatim>\<open>scanDirectory\<close>
  with its manifest argument; their other arguments are the constant configuration.\<close>

datatype effect =
    IsDetachedHead
  | GetGitState
  | GetServerManifest string
  | ScanDirectory "ServerManifest option"
  | OnStateChange IndexerState
  | CaptureEvent string

text \<open>Decimal text of a number, as a template literal of the source renders it.\<close>

fun string_of_nat :: "nat \<Rightarrow> string" where
  "string_of_nat n =
     (if n < 10 then [char_of (48 + n)]
      else string_of_nat (n div 10) @ [char_of (48 + n mod 10)])"

declare string_of_nat.simps [simp del]

text \<open>\<^verbatim>\<open>onStateChange?.(s)\<close>: the callback is an optional parameter of
  \<^verbatim>\<open>createGitWatcher\<close>; \<open>cb\<close> tells whether it was given.\<close>

definition onStateChange :: "bool \<Rightarrow> IndexerState \<Rightarrow> effect list" where
  "onStateChange cb s = (if cb then [OnStateChange s] else [])"

text \<open>What the callback throws when it is handed an error status, if anything: no callback,
  or one that returns (\<open>onError\<close> is what the given callback does then), throws
  nothing.\<close>

definition callback_throws :: "bool \<Rightarrow> unit outcome \<Rightarrow> string option" where
  "callback_throws cb onError =
     (if cb then (case onError of Returns u \<Rightarrow> None | Throws e \<Rightarrow> Some e) else None)"

text \<open>How \<^verbatim>\<open>handleBranchChange\<close> or \<^verbatim>\<open>handleCommit\<close> goes on once \<^verbatim>\<open>scanDirectory\<close> has
  settled: it fetches the manifest again and waits, or it has returned, or it has thrown
  (an \<^verbatim>\<open>async\<close> function that throws rejects the promise its caller awaits).\<close>

datatype scanned = Fetching ScanResult | Returned | Rejected string

text \<open>The status both the constructor (lines 224-228) and \<^verbatim>\<open>handleGitChange\<close>
  (lines 255-259) report in detached HEAD state.\<close>

definition detachedHeadState :: IndexerState where
  "detachedHeadState =
     \<lparr>status = Idle, message = ''Detached HEAD state - indexing disabled'',
      gitBranch = None, error = None, lastSyncTime = None, totalFiles = None,
      totalChunks = None, manifest = None\<rparr>"

subsection \<open>\<^verbatim>\<open>handleBranchChange\<close>, lines 329-416\<close>

text \<open>The function has three \<^verbatim>\<open>await\<close>s (lines 347, 367, 379); each definition below is
  the code that runs between two of them, as the effects it performs.\<close>

text \<open>Lines 338-352: up to the call of \<^verbatim>\<open>getServerManifest\<close>.\<close>

definition handleBranchChange_begin :: "bool \<Rightarrow> string \<Rightarrow> effect list" where
  "handleBranchChange_begin cb newBranch =
     onStateChange cb
       \<lparr>status = Scanning,
        message = ''Branch changed to '' @ newBranch @ '', fetching manifest...'',
        gitBranch = Some newBranch, error = None, lastSyncTime = None, totalFiles = None,
        totalChunks = None, manifest = None\<rparr>
     @ [GetServerManifest newBranch]"

text \<open>Lines 345-373: the inner \<^verbatim>\<open>try\<close> leaves \<^verbatim>\<open>manifest\<close> undefined when the fetch
  throws; then the second status and the call of \<^verbatim>\<open>scanDirectory\<close>.\<close>

definition handleBranchChange_manifest ::
  "bool \<Rightarrow> string \<Rightarrow> ServerManifest outcome \<Rightarrow> effect list" where
  "handleBranchChange_manifest cb newBranch r =
     (let manifest = (case r of Returns m \<Rightarrow> Some m | Throws e \<Rightarrow> None) in
      onStateChange cb
        \<lparr>status = Scanning, message = ''Scanning branch '' @ newBranch @ ''...'',
         gitBranch = Some newBranch, error = None, lastSyncTime = None, totalFiles = None,
         totalChunks = None, manifest = None\<rparr>
      @ [ScanDirectory manifest])"

text \<open>Lines 367-373: the progress callback passed to \<^verbatim>\<open>scanDirectory\<close>.\<close>

definition handleBranchChange_progress :: "bool \<Rightarrow> string \<Rightarrow> ScanProgress \<Rightarrow> effect list" where
  "handleBranchChange_progress cb newBranch progress =
     onStateChange cb
       \<lparr>status = Scanning,
        message = ''Scanning: '' @ string_of_nat (filesProcessed progress) @ ''/''
          @ string_of_nat (filesTotal progress) @ '' files (''
          @ string_of_nat (chunksIndexed progress) @ '' chunks)'',
        gitBranch = Some newBranch, error = None, lastSyncTime = None, totalFiles = None,
        totalChunks = None, manifest = None\<rparr>"

text \<open>Lines 407-415: the \<^verbatim>\<open>catch\<close> block of the function. It hands the error status to the
  callback; if that call throws, nothing catches it and the function throws in turn.\<close>

definition handleBranchChange_catch ::
  "bool \<Rightarrow> unit outcome \<Rightarrow> string \<Rightarrow> string \<Rightarrow> effect list \<times> scanned" where
  "handleBranchChange_catch cb onError newBranch e =
     (onStateChange cb
        \<lparr>status = Error, message = ''Failed to index branch '' @ newBranch @ '': '' @ e,
         gitBranch = Some newBranch, error = Some e, lastSyncTime = None, totalFiles = None,
         totalChunks = None, manifest = None\<rparr>,
      case callback_throws cb onError of None \<Rightarrow> Returned | Some e' \<Rightarrow> Rejected e')"

text \<open>Lines 367-406: \<^verbatim>\<open>scanDirectory\<close> has settled. On success the manifest is fetched
  again and the function waits for it; a thrown scan, and the \<^verbatim>\<open>throw new Error\<close> of
  line 405, end in the \<^verbatim>\<open>catch\<close> block.\<close>

definition handleBranchChange_scan ::
  "bool \<Rightarrow> unit outcome \<Rightarrow> string \<Rightarrow> ScanResult outcome \<Rightarrow> effect list \<times> scanned" where
  "handleBranchChange_scan cb onError newBranch r =
     (case r of
        Throws e \<Rightarrow> handleBranchChange_catch cb onError newBranch e
      | Returns result \<Rightarrow>
          if success result then ([GetServerManifest newBranch], Fetching result)
          else handleBranchChange_catch cb onError newBranch
                 (''Scan failed with '' @ string_of_nat (length (errors result)) @ '' errors''))"

text \<open>Lines 376-403: the second fetch has settled (a throw leaves \<^verbatim>\<open>updatedManifest\<close>
  undefined); \<open>now\<close> is what \<^verbatim>\<open>Date.now()\<close> returns.\<close>

definition handleBranchChange_updated ::
  "bool \<Rightarrow> string \<Rightarrow> ScanResult \<Rightarrow> ServerManifest outcome \<Rightarrow> int \<Rightarrow> effect list" where
  "handleBranchChange_updated cb newBranch result r now =
     (let updatedManifest = (case r of Returns m \<Rightarrow> Some m | Throws e \<Rightarrow> None) in
      onStateChange cb
        \<lparr>status = Watching, message = ''Branch '' @ newBranch @ '' indexed successfully'',
         gitBranch = Some newBranch, error = None, lastSyncTime = Some now,
         totalFiles = Some (resultFilesProcessed result),
         totalChunks = Some (resultChunksIndexed result),
         manifest =
           (case updatedManifest of
              Some m \<Rightarrow>
                Some \<lparr>manifestTotalFiles = manifestTotalFiles m,
                      manifestTotalChunks = manifestTotalChunks m,
                      manifestLastUpdated = manifestLastUpdated m\<rparr>
            | None \<Rightarrow> None)\<rparr>)"

subsection \<open>\<^verbatim>\<open>handleCommit\<close>, lines 421-499\<close>

text \<open>Lines 430-444: up to the call of \<^verbatim>\<open>getServerManifest\<close>.\<close>

definition handleCommit_begin :: "bool \<Rightarrow> string \<Rightarrow> effect list" where
  "handleCommit_begin cb branch' =
     onStateChange cb
       \<lparr>status = Scanning, message = ''New commit detected, updating index...'',
        gitBranch = Some branch', error = None, lastSyncTime = None, totalFiles = None,
        totalChunks = None, manifest = None\<rparr>
     @ [GetServerManifest branch']"

text \<open>Lines 437-456: the fetch has settled; \<^verbatim>\<open>scanDirectory\<close> is called at once.\<close>

definition handleCommit_manifest ::
  "bool \<Rightarrow> string \<Rightarrow> ServerManifest outcome \<Rightarrow> effect list" where
  "handleCommit_manifest cb branch' r =
     (let manifest = (case r of Returns m \<Rightarrow> Some m | Throws e \<Rightarrow> None) in
      [ScanDirectory manifest])"

text \<open>Lines 450-456: the progress callback.\<close>

definition handleCommit_progress :: "bool \<Rightarrow> string \<Rightarrow> ScanProgress \<Rightarrow> effect list" where
  "handleCommit_progress cb branch' progress =
     onStateChange cb
       \<lparr>status = Scanning,
        message = ''Updating: '' @ string_of_nat (filesProcessed progress) @ ''/''
          @ string_of_nat (filesTotal progress) @ '' files (''
          @ string_of_nat (chunksIndexed progress) @ '' chunks)'',
        gitBranch = Some branch', error = None, lastSyncTime = None, totalFiles = None,
        totalChunks = None, manifest = None\<rparr>"

text \<open>Lines 490-498: the \<^verbatim>\<open>catch\<close> block, with the same unguarded call of the
  callback.\<close>

definition handleCommit_catch ::
  "bool \<Rightarrow> unit outcome \<Rightarrow> string \<Rightarrow> string \<Rightarrow> effect list \<times> scanned" where
  "handleCommit_catch cb onError branch' e =
     (onStateChange cb
        \<lparr>status = Error, message = ''Failed to update index after commit: '' @ e,
         gitBranch = Some branch', error = Some e, lastSyncTime = None, totalFiles = None,
         totalChunks = None, manifest = None\<rparr>,
      case callback_throws cb onError of None \<Rightarrow> Returned | Some e' \<Rightarrow> Rejected e')"

text \<open>Lines 450-489: \<^verbatim>\<open>scanDirectory\<close> has settled.\<close>

definition handleCommit_scan ::
  "bool \<Rightarrow> unit outcome \<Rightarrow> string \<Rightarrow> ScanResult outcome \<Rightarrow> effect list \<times> scanned" where
  "handleCommit_scan cb onError branch' r =
     (case r of
        Throws e \<Rightarrow> handleCommit_catch cb onError branch' e
      | Returns result \<Rightarrow>
          if success result then ([GetServerManifest branch'], Fetching result)
          else handleCommit_catch cb onError branch'
                 (''Scan failed with '' @ string_of_nat (length (errors result)) @ '' errors''))"

text \<open>Lines 459-486: the second fetch has settled.\<close>

definition handleCommit_updated ::
  "bool \<Rightarrow> string \<Rightarrow> ScanResult \<Rightarrow> ServerManifest outcome \<Rightarrow> int \<Rightarrow> effect list" where
  "handleCommit_updated cb branch' result r now =
     (let updatedManifest = (case r of Returns m \<Rightarrow> Some m | Throws e \<Rightarrow> None) in
      onStateChange cb
        \<lparr>status = Watching, message = ''Index updated after commit'',
         gitBranch = Some branch', error = None, lastSyncTime = Some now,
         totalFiles = Some (resultFilesProcessed result),
         totalChunks = Some (resultChunksIndexed result),
         manifest =
           (case updatedManifest of
              Some m \<Rightarrow>
                Some \<lparr>manifestTotalFiles = manifestTotalFiles m,
                      manifestTotalChunks = manifestTotalChunks m,
                      manifestLastUpdated = manifestLastUpdated m\<rparr>
            | None \<Rightarrow> None)\<rparr>)"

subsection \<open>The watcher: state, events and \<^verbatim>\<open>handleGitChange\<close>\<close>

text \<open>The sources of triggers: the three file-system watchers of lines 517-580 and the
  poll timer of lines 595-598. All four call \<^verbatim>\<open>handleGitChange\<close>.\<close>

datatype channel = HeadWatcher | RefsWatcher | PackedRefsWatcher | Poll

text \<open>Which of the two reconciliation functions an invocation of \<^verbatim>\<open>handleGitChange\<close>
  is waiting for, and the \<^verbatim>\<open>await\<close> at which that function is suspended.\<close>

datatype handler = HandleBranchChange | HandleCommit

datatype awaiting = AwaitManifest | AwaitScan | AwaitUpdatedManifest ScanResult

text \<open>A suspended invocation of \<^verbatim>\<open>handleGitChange\<close>: it is inside the \<^verbatim>\<open>await\<close> of
  line 297, 305 or 310, holds its local \<^verbatim>\<open>newState\<close>, and the function it called was
  given \<^verbatim>\<open>newState.branch\<close>.\<close>

record task =
  called :: handler
  awaits :: awaiting
  newState :: GitStateSnapshot

text \<open>The variables the closures share (lines 208-210), the callback parameter (whether
  it was given, and what it does when it is handed an error status), the suspended
  invocations, the live trigger sources and the trace.\<close>

record watcher =
  callback :: bool
  callbackOnError :: "unit outcome"
  currentState :: "GitStateSnapshot option"
  isProcessing :: bool
  inFlight :: "task list"
  subscriptions :: "channel list"
  pollingInterval :: bool
  trace :: "effect list"

text \<open>What the two synchronous reads of \<^verbatim>\<open>handleGitChange\<close> (lines 251 and 264) do in
  one invocation.\<close>

record git =
  isDetachedHead :: "bool outcome"
  getGitState :: "GitStateSnapshot option outcome"

text \<open>What the environment does while the constructor runs: the first
  \<^verbatim>\<open>getGitState\<close> (line 214), the creation of the three watchers (a throw at lines 503-527
  abandons the whole outer \<^verbatim>\<open>try\<close>; the two inner blocks have \<^verbatim>\<open>try\<close>s of their own)
  and the existence of the packed-refs file (line 562); and what the callback handed to
  the constructor does when it is given an error status.\<close>

record startup =
  onErrorStatus :: "unit outcome"
  initialGitState :: "GitStateSnapshot option outcome"
  headWatcher :: "unit outcome"
  refsWatcher :: "unit outcome"
  packedRefsExists :: bool
  packedRefsWatcher :: "unit outcome"

datatype settlement = ManifestSettled "ServerManifest outcome" | ScanSettled "ScanResult outcome"

text \<open>The events of the host. \<open>Trigger c g\<close>: source \<open>c\<close> fires, and the reads of git
  state made by the invocation behave as \<open>g\<close>. \<open>Settle i s now\<close>: the call awaited by the
  \<open>i\<close>-th suspended invocation settles as \<open>s\<close>, at clock reading \<open>now\<close>.
  \<open>ProgressTick i p\<close>: the scan of the \<open>i\<close>-th suspended invocation reports progress.
  \<open>Dispose\<close>: the disposable returned by \<^verbatim>\<open>createGitWatcher\<close> is disposed.\<close>

datatype event =
    Trigger channel git
  | Settle nat settlement int
  | ProgressTick nat ScanProgress
  | Dispose

definition perform :: "effect list \<Rightarrow> watcher \<Rightarrow> watcher" where
  "perform es w = w\<lparr>trace := trace w @ es\<rparr>"

text \<open>The \<^verbatim>\<open>finally\<close> block, lines 321-323.\<close>

definition finally_block :: "watcher \<Rightarrow> watcher" where
  "finally_block w = w\<lparr>isProcessing := False\<rparr>"

text \<open>The \<^verbatim>\<open>catch\<close> block, lines 314-320.\<close>

definition catch_block :: "string \<Rightarrow> watcher \<Rightarrow> watcher" where
  "catch_block e w = perform [CaptureEvent e] w"

definition handler_begin :: "handler \<Rightarrow> bool \<Rightarrow> string \<Rightarrow> effect list" where
  "handler_begin h cb b =
     (case h of HandleBranchChange \<Rightarrow> handleBranchChange_begin cb b
              | HandleCommit \<Rightarrow> handleCommit_begin cb b)"

definition handler_manifest :: "handler \<Rightarrow> bool \<Rightarrow> string \<Rightarrow> ServerManifest outcome \<Rightarrow> effect list" where
  "handler_manifest h cb b r =
     (case h of HandleBranchChange \<Rightarrow> handleBranchChange_manifest cb b r
              | HandleCommit \<Rightarrow> handleCommit_manifest cb b r)"

definition handler_progress :: "handler \<Rightarrow> bool \<Rightarrow> string \<Rightarrow> ScanProgress \<Rightarrow> effect list" where
  "handler_progress h cb b p =
     (case h of HandleBranchChange \<Rightarrow> handleBranchChange_progress cb b p
              | HandleCommit \<Rightarrow> handleCommit_progress cb b p)"

definition handler_scan ::
  "handler \<Rightarrow> bool \<Rightarrow> unit outcome \<Rightarrow> string \<Rightarrow> ScanResult outcome
     \<Rightarrow> effect list \<times> scanned" where
  "handler_scan h cb onError b r =
     (case h of HandleBranchChange \<Rightarrow> handleBranchChange_scan cb onError b r
              | HandleCommit \<Rightarrow> handleCommit_scan cb onError b r)"

definition handler_updated ::
  "handler \<Rightarrow> bool \<Rightarrow> string \<Rightarrow> ScanResult \<Rightarrow> ServerManifest outcome \<Rightarrow> int \<Rightarrow> effect list" where
  "handler_updated h cb b result r now =
     (case h of HandleBranchChange \<Rightarrow> handleBranchChange_updated cb b result r now
              | HandleCommit \<Rightarrow> handleCommit_updated cb b result r now)"

text \<open>\<^verbatim>\<open>await handleBranchChange(newState.branch, ...)\<close> or
  \<^verbatim>\<open>await handleCommit(newState.branch, ...)\<close>: the called function runs to its first
  \<^verbatim>\<open>await\<close>, and the invocation of \<^verbatim>\<open>handleGitChange\<close> is suspended.\<close>

definition await_handler :: "handler \<Rightarrow> GitStateSnapshot \<Rightarrow> watcher \<Rightarrow> watcher" where
  "await_handler h ns w =
     (perform (handler_begin h (callback w) (branch ns)) w)
       \<lparr>inFlight := inFlight w @ [\<lparr>called = h, awaits = AwaitManifest, newState = ns\<rparr>]\<rparr>"

text \<open>\<^verbatim>\<open>handleGitChange\<close>, lines 238-324, up to its return or to its \<^verbatim>\<open>await\<close>.\<close>

definition handleGitChange :: "git \<Rightarrow> watcher \<Rightarrow> watcher" where
  "handleGitChange g w =
     (if isProcessing w then w
      else
        (let w = perform [IsDetachedHead] (w\<lparr>isProcessing := True\<rparr>) in
         (case isDetachedHead g of
            Throws e \<Rightarrow> finally_block (catch_block e w)
          | Returns True \<Rightarrow>
              finally_block
                (perform (onStateChange (callback w) detachedHeadState)
                   (w\<lparr>currentState := None\<rparr>))
          | Returns False \<Rightarrow>
              (let w = perform [GetGitState] w in
               (case getGitState g of
                  Throws e \<Rightarrow> finally_block (catch_block e w)
                | Returns None \<Rightarrow> finally_block w
                | Returns (Some ns) \<Rightarrow>
                    (case currentState w of
                       Some cur \<Rightarrow>
                         (let branchChanged = (branch cur \<noteq> branch ns);
                              commitChanged = (commit cur \<noteq> commit ns)
                          in
                            if \<not> branchChanged \<and> \<not> commitChanged then finally_block w
                            else if branchChanged then await_handler HandleBranchChange ns w
                            else if commitChanged then await_handler HandleCommit ns w
                            else finally_block (w\<lparr>currentState := Some ns\<rparr>))
                     | None \<Rightarrow> await_handler HandleBranchChange ns w))))))"

text \<open>The called function has returned: the \<open>i\<close>-th invocation of \<^verbatim>\<open>handleGitChange\<close>
  resumes after its \<^verbatim>\<open>await\<close>, runs line 313 and the \<^verbatim>\<open>finally\<close> block, and is gone.\<close>

definition resume_handleGitChange :: "nat \<Rightarrow> task \<Rightarrow> watcher \<Rightarrow> watcher" where
  "resume_handleGitChange i t w =
     finally_block
       (w\<lparr>currentState := Some (newState t),
          inFlight := take i (inFlight w) @ drop (Suc i) (inFlight w)\<rparr>)"

text \<open>The called function has thrown \<open>e\<close>: the \<^verbatim>\<open>await\<close> of the \<open>i\<close>-th invocation of
  \<^verbatim>\<open>handleGitChange\<close> throws it, line 313 is skipped, the \<^verbatim>\<open>catch\<close> block and the
  \<^verbatim>\<open>finally\<close> block run, and the invocation is gone.\<close>

definition rethrown_handleGitChange :: "nat \<Rightarrow> string \<Rightarrow> watcher \<Rightarrow> watcher" where
  "rethrown_handleGitChange i e w =
     finally_block
       (catch_block e (w\<lparr>inFlight := take i (inFlight w) @ drop (Suc i) (inFlight w)\<rparr>))"

text \<open>A settled call resumes the function that awaits it. A settlement of the wrong kind
  for the \<^verbatim>\<open>await\<close>, or for an invocation that does not exist, cannot happen and changes
  nothing.\<close>

definition settle :: "nat \<Rightarrow> settlement \<Rightarrow> int \<Rightarrow> watcher \<Rightarrow> watcher" where
  "settle i s now w =
     (if i < length (inFlight w) then
        let t = inFlight w ! i; h = called t; cb = callback w; b = branch (newState t) in
        case (awaits t, s) of
          (AwaitManifest, ManifestSettled r) \<Rightarrow>
            (perform (handler_manifest h cb b r) w)
              \<lparr>inFlight := (inFlight w)[i := t\<lparr>awaits := AwaitScan\<rparr>]\<rparr>
        | (AwaitScan, ScanSettled r) \<Rightarrow>
            (case handler_scan h cb (callbackOnError w) b r of
               (es, Fetching result) \<Rightarrow>
                 (perform es w)
                   \<lparr>inFlight := (inFlight w)[i := t\<lparr>awaits := AwaitUpdatedManifest result\<rparr>]\<rparr>
             | (es, Returned) \<Rightarrow> resume_handleGitChange i t (perform es w)
             | (es, Rejected e) \<Rightarrow> rethrown_handleGitChange i e (perform es w))
        | (AwaitUpdatedManifest result, ManifestSettled r) \<Rightarrow>
            resume_handleGitChange i t (perform (handler_updated h cb b result r now) w)
        | _ \<Rightarrow> w
      else w)"

text \<open>\<^verbatim>\<open>scanDirectory\<close> calls the progress callback while the scan is awaited.\<close>

definition progress_tick :: "nat \<Rightarrow> ScanProgress \<Rightarrow> watcher \<Rightarrow> watcher" where
  "progress_tick i p w =
     (if i < length (inFlight w) then
        let t = inFlight w ! i in
        case awaits t of
          AwaitScan \<Rightarrow> perform (handler_progress (called t) (callback w) (branch (newState t)) p) w
        | _ \<Rightarrow> w
      else w)"

text \<open>Line 616 and lines 600-605: disposing the composite disposes every element of
  \<^verbatim>\<open>disposables\<close>, that is, the listeners and watchers of the push channels and the
  object whose \<^verbatim>\<open>dispose\<close> clears the interval. Nothing else is touched.\<close>

definition dispose :: "watcher \<Rightarrow> watcher" where
  "dispose w = w\<lparr>subscriptions := [], pollingInterval := False\<rparr>"

text \<open>A source fires only while it is live.\<close>

definition live :: "channel \<Rightarrow> watcher \<Rightarrow> bool" where
  "live c w = (if c = Poll then pollingInterval w else c \<in> set (subscriptions w))"

fun step :: "watcher \<Rightarrow> event \<Rightarrow> watcher" where
  "step w (Trigger c g) = (if live c w then handleGitChange g w else w)"
| "step w (Settle i s now) = settle i s now w"
| "step w (ProgressTick i p) = progress_tick i p w"
| "step w Dispose = dispose w"

definition run :: "watcher \<Rightarrow> event list \<Rightarrow> watcher" where
  "run w evs = foldl step w evs"

text \<open>\<^verbatim>\<open>createGitWatcher\<close>, lines 200-617, without the closures: the state the watcher
  starts in.\<close>

definition subscribe :: "channel \<Rightarrow> watcher \<Rightarrow> watcher" where
  "subscribe c w = w\<lparr>subscriptions := subscriptions w @ [c]\<rparr>"

definition createGitWatcher :: "bool \<Rightarrow> startup \<Rightarrow> watcher" where
  "createGitWatcher cb env =
     (let w = \<lparr>callback = cb, callbackOnError = onErrorStatus env, currentState = None,
               isProcessing = False, inFlight = [], subscriptions = [],
               pollingInterval = False, trace = [GetGitState]\<rparr>;
          w = (case initialGitState env of
                 Returns (Some gitState) \<Rightarrow> w\<lparr>currentState := Some gitState\<rparr>
               | Returns None \<Rightarrow> perform (onStateChange cb detachedHeadState) w
               | Throws e \<Rightarrow> w);
          w = (case headWatcher env of
                 Throws e \<Rightarrow> perform [CaptureEvent e] w
               | Returns _ \<Rightarrow>
                   let w = subscribe HeadWatcher w;
                       w = (case refsWatcher env of
                              Returns _ \<Rightarrow> subscribe RefsWatcher w
                            | Throws e \<Rightarrow> w)
                   in if packedRefsExists env then
                        (case packedRefsWatcher env of
                           Returns _ \<Rightarrow> subscribe PackedRefsWatcher w
                         | Throws e \<Rightarrow> w)
                      else w)
      in w\<lparr>pollingInterval := True\<rparr>)"

subsection \<open>Observations on the trace\<close>

text \<open>How often the scan pipeline was invoked, and the statuses handed to the callback.\<close>

fun is_scan :: "effect \<Rightarrow> bool" where
  "is_scan (ScanDirectory m) = True"
| "is_scan _ = False"

definition scanCalls :: "watcher \<Rightarrow> nat" where
  "scanCalls w = length (filter is_scan (trace w))"

fun reported :: "effect list \<Rightarrow> IndexerState list" where
  "reported [] = []"
| "reported (OnStateChange s # es) = s # reported es"
| "reported (e # es) = reported es"

text \<open>What was performed on the way from state \<open>w\<close> to a later state \<open>w'\<close>.\<close>

definition since :: "watcher \<Rightarrow> watcher \<Rightarrow> effect list" where
  "since w w' = drop (length (trace w)) (trace w')"

fun is_trigger :: "event \<Rightarrow> bool" where
  "is_trigger (Trigger c g) = True"
| "is_trigger _ = False"

text \<open>A trigger whose invocation finds the repository in detached HEAD state.\<close>

fun finds_detached :: "event \<Rightarrow> bool" where
  "finds_detached (Trigger c g) = (isDetachedHead g = Returns True)"
| "finds_detached _ = False"

text \<open>An effect with the text of the \<^verbatim>\<open>message\<close> field blanked; every other field of a
  reported status, and every other effect, is kept.\<close>

fun erase_message :: "effect \<Rightarrow> effect" where
  "erase_message (OnStateChange s) = OnStateChange (s\<lparr>message := []\<rparr>)"
| "erase_message e = e"

text \<open>The status \<^verbatim>\<open>handleBranchChange\<close> reports at lines 361-365, between the manifest
  fetch and the scan; \<^verbatim>\<open>handleCommit\<close> has no counterpart of it.\<close>

definition scanningBranch :: "string \<Rightarrow> IndexerState" where
  "scanningBranch newBranch =
     \<lparr>status = Scanning, message = ''Scanning branch '' @ newBranch @ ''...'',
      gitBranch = Some newBranch, error = None, lastSyncTime = None, totalFiles = None,
      totalChunks = None, manifest = None\<rparr>"

text \<open>A trace in which that status is reported to the callback right before every
  invocation of the scan pipeline.\<close>

fun announce_scan :: "bool \<Rightarrow> string \<Rightarrow> effect \<Rightarrow> effect list" where
  "announce_scan cb b (ScanDirectory m) = onStateChange cb (scanningBranch b) @ [ScanDirectory m]"
| "announce_scan cb b e = [e]"

definition announcing_scans :: "bool \<Rightarrow> string \<Rightarrow> effect list \<Rightarrow> effect list" where
  "announcing_scans cb b es = concat (map (announce_scan cb b) es)"

text \<open>A scan that fails: \<^verbatim>\<open>scanDirectory\<close> throws, or resolves with \<^verbatim>\<open>success\<close> false.\<close>

fun scan_fails :: "ScanResult outcome \<Rightarrow> bool" where
  "scan_fails (Throws e) = True"
| "scan_fails (Returns result) = (\<not> success result)"

text \<open>The flag is set exactly while one invocation is suspended.\<close>

definition single_flight :: "watcher \<Rightarrow> bool" where
  "single_flight w = (if isProcessing w then length (inFlight w) = 1 else inFlight w = [])"


subsection \<open>Concrete inputs\<close>

definition main_aaa :: GitStateSnapshot where
  "main_aaa = \<lparr>branch = ''main'', commit = ''aaa111'', isDetached = False\<rparr>"

definition main_bbb :: GitStateSnapshot where
  "main_bbb = \<lparr>branch = ''main'', commit = ''bbb222'', isDetached = False\<rparr>"

definition feature_x :: GitStateSnapshot where
  "feature_x = \<lparr>branch = ''feature-x'', commit = ''ccc333'', isDetached = False\<rparr>"

text \<open>A repository on \<^verbatim>\<open>main\<close> at start, all watchers created, no packed-refs file; the
  callback is given and returns whatever it is handed.\<close>

definition startup_main :: startup where
  "startup_main =
     \<lparr>onErrorStatus = Returns (), initialGitState = Returns (Some main_aaa),
      headWatcher = Returns (), refsWatcher = Returns (), packedRefsExists = False,
      packedRefsWatcher = Returns ()\<rparr>"

definition watcher_main :: watcher where
  "watcher_main = createGitWatcher True startup_main"

text \<open>The same, with a callback that throws when it is handed an error status.\<close>

definition watcher_rethrowing :: watcher where
  "watcher_rethrowing =
     createGitWatcher True (startup_main\<lparr>onErrorStatus := Throws ''callback failed''\<rparr>)"

text \<open>The reads of an invocation that finds the repository at snapshot \<open>ns\<close>, and of one
  that finds it detached.\<close>

definition reads :: "GitStateSnapshot \<Rightarrow> git" where
  "reads ns = \<lparr>isDetachedHead = Returns False, getGitState = Returns (Some ns)\<rparr>"

definition reads_detached :: git where
  "reads_detached = \<lparr>isDetachedHead = Returns True, getGitState = Returns None\<rparr>"

definition scan_ok :: ScanResult where
  "scan_ok = \<lparr>success = True, resultFilesProcessed = 12, resultChunksIndexed = 100, errors = []\<rparr>"

definition scan_failed :: ScanResult where
  "scan_failed =
     \<lparr>success = False, resultFilesProcessed = 3, resultChunksIndexed = 7,
      errors = [''EACCES'', ''timeout'']\<rparr>"

definition manifest_main :: ServerManifest where
  "manifest_main = \<lparr>manifestTotalFiles = 12, manifestTotalChunks = 100, manifestLastUpdated = 1700\<rparr>"

section \<open>Properties\<close>

subsection \<open>Basic facts\<close>

lemma perform_fields [simp]:
  "isProcessing (perform es w) = isProcessing w"
  "inFlight (perform es w) = inFlight w"
  "currentState (perform es w) = currentState w"
  "callback (perform es w) = callback w"
  "callbackOnError (perform es w) = callbackOnError w"
  "subscriptions (perform es w) = subscriptions w"
  "pollingInterval (perform es w) = pollingInterval w"
  "trace (perform es w) = trace w @ es"
  by (simp_all add: perform_def)

lemma run_Nil [simp]: "run w [] = w"
  by (simp add: run_def)

lemma run_Cons [simp]: "run w (e # evs) = run (step w e) evs"
  by (simp add: run_def)

lemma run_append: "run w (evs @ evs') = run (run w evs) evs'"
  by (simp add: run_def)

lemma trigger_dropped: "isProcessing w \<Longrightarrow> step w (Trigger c g) = w"
  by (simp add: handleGitChange_def)

lemma triggers_dropped:
  assumes "isProcessing w" and "\<forall>e\<in>set ts. is_trigger e"
  shows "run w ts = w"
  using assms
proof (induction ts)
  case Nil
  then show ?case by simp
next
  case (Cons e ts)
  from Cons.prems obtain c g where "e = Trigger c g"
    by (cases e) auto
  with Cons show ?case by (simp add: trigger_dropped del: step.simps)
qed

subsection \<open>The flag and the suspended invocations\<close>

lemma single_flight_create: "single_flight (createGitWatcher cb env)"
  by (simp add: single_flight_def createGitWatcher_def subscribe_def Let_def
      split: outcome.splits option.splits)

lemma single_flight_handleGitChange:
  "single_flight w \<Longrightarrow> single_flight (handleGitChange g w)"
  by (auto simp add: single_flight_def handleGitChange_def finally_block_def catch_block_def
      await_handler_def Let_def split: outcome.splits option.splits bool.splits)

lemma single_flight_settle:
  "single_flight w \<Longrightarrow> single_flight (settle i s now w)"
  by (auto simp add: single_flight_def settle_def finally_block_def catch_block_def
      resume_handleGitChange_def rethrown_handleGitChange_def Let_def
      split: awaiting.splits settlement.splits prod.splits scanned.splits if_splits)

lemma single_flight_step:
  assumes "single_flight w"
  shows "single_flight (step w e)"
proof (cases e)
  case (Trigger c g)
  with assms show ?thesis by (simp add: single_flight_handleGitChange)
next
  case (Settle i s now)
  with assms show ?thesis by (simp add: single_flight_settle)
next
  case (ProgressTick i p)
  with assms show ?thesis
    by (simp add: progress_tick_def single_flight_def Let_def split: awaiting.splits)
next
  case Dispose
  with assms show ?thesis by (simp add: dispose_def single_flight_def)
qed

lemma single_flight_run: "single_flight w \<Longrightarrow> single_flight (run w evs)"
  by (induction evs arbitrary: w) (simp_all add: single_flight_step)

lemma single_flight_reachable: "single_flight (run (createGitWatcher cb env) evs)"
  by (simp add: single_flight_run single_flight_create)

text \<open>Settling is the only way forward for a suspended invocation, and three
  settlements of the right kinds always end it.\<close>

lemma drained:
  assumes "single_flight w"
  shows "\<not> isProcessing
           (run w [Settle 0 (ManifestSettled m) n1, Settle 0 (ScanSettled s) n2,
                   Settle 0 (ManifestSettled m') n3])"
proof (cases "isProcessing w")
  case False
  with assms have "inFlight w = []" by (simp add: single_flight_def)
  with False show ?thesis by (simp add: settle_def)
next
  case True
  with assms obtain t where t: "inFlight w = [t]"
    by (auto simp add: single_flight_def length_Suc_conv)
  show ?thesis
  proof (cases "awaits t")
    case AwaitManifest
    with t show ?thesis
      by (simp add: settle_def Let_def resume_handleGitChange_def rethrown_handleGitChange_def
          finally_block_def catch_block_def split: prod.splits scanned.splits)
  next
    case AwaitScan
    with t show ?thesis
      by (simp add: settle_def Let_def resume_handleGitChange_def rethrown_handleGitChange_def
          finally_block_def catch_block_def split: prod.splits scanned.splits)
  next
    case (AwaitUpdatedManifest r)
    with t show ?thesis
      by (simp add: settle_def Let_def resume_handleGitChange_def rethrown_handleGitChange_def
          finally_block_def catch_block_def split: prod.splits scanned.splits)
  qed
qed

text \<open>
  Claim C9. The in-flight flag is cleared on every exit path of the trigger handler. In every
  state the watcher can reach from its construction, the flag \<open>isProcessing\<close> is set
  exactly while an invocation of \<^verbatim>\<open>handleGitChange\<close> is suspended at its \<^verbatim>\<open>await\<close>,
  and there is at most one such invocation: whenever an invocation that passed the guard
  has returned (detached HEAD, unreadable or unchanged state, a caught exception, or a
  finished reconciliation) the flag is false. A suspended invocation returns as soon as
  the calls it awaits have settled, whatever their outcomes, so no sequence of triggers
  leaves the watcher refusing triggers for good.
\<close>

theorem in_flight_flag_cleared:
  assumes "w = run (createGitWatcher cb env) evs"
  shows "isProcessing w = (inFlight w \<noteq> []) \<and> length (inFlight w) \<le> 1
    \<and> \<not> isProcessing
          (run w [Settle 0 (ManifestSettled m) n1, Settle 0 (ScanSettled s) n2,
                  Settle 0 (ManifestSettled m') n3])"
proof -
  have sf: "single_flight w"
    using assms by (simp add: single_flight_reachable)
  then have "isProcessing w = (inFlight w \<noteq> [])" and "length (inFlight w) \<le> 1"
    by (auto simp add: single_flight_def split: if_splits)
  with drained [OF sf] show ?thesis by simp
qed


theorem in_flight_flag_cleared_witness:
  "isProcessing (run watcher_main [Trigger Poll (reads main_bbb)])
   \<and> length (inFlight (run watcher_main [Trigger Poll (reads main_bbb)])) = 1
   \<and> \<not> isProcessing
         (run (run watcher_main [Trigger Poll (reads main_bbb)])
            [Settle 0 (ManifestSettled (Throws ''404'')) 1,
             Settle 0 (ScanSettled (Returns scan_failed)) 2,
             Settle 0 (ManifestSettled (Throws ''404'')) 3])"
proof -
  have reach: "run watcher_main [Trigger Poll (reads main_bbb)]
      = run (createGitWatcher True startup_main) [Trigger Poll (reads main_bbb)]"
    by (simp add: watcher_main_def)
  have flag: "isProcessing (run watcher_main [Trigger Poll (reads main_bbb)])"
    by (simp add: watcher_main_def createGitWatcher_def startup_main_def subscribe_def
        live_def handleGitChange_def await_handler_def reads_def main_aaa_def main_bbb_def)
  from in_flight_flag_cleared [OF reach] flag show ?thesis
    by (cases "inFlight (run watcher_main [Trigger Poll (reads main_bbb)])") auto
qed

subsection \<open>Evaluation on concrete inputs\<close>

lemmas model_defs =
  onStateChange_def detachedHeadState_def
  handleBranchChange_begin_def handleBranchChange_manifest_def handleBranchChange_progress_def
  handleBranchChange_catch_def handleBranchChange_scan_def handleBranchChange_updated_def
  handleCommit_begin_def handleCommit_manifest_def handleCommit_progress_def
  handleCommit_catch_def handleCommit_scan_def handleCommit_updated_def
  handler_begin_def handler_manifest_def handler_progress_def handler_scan_def
  handler_updated_def perform_def finally_block_def catch_block_def await_handler_def
  handleGitChange_def resume_handleGitChange_def rethrown_handleGitChange_def settle_def
  progress_tick_def dispose_def live_def subscribe_def createGitWatcher_def scanCalls_def
  since_def callback_throws_def

lemmas input_defs =
  main_aaa_def main_bbb_def feature_x_def startup_main_def watcher_main_def
  watcher_rethrowing_def reads_def
  reads_detached_def scan_ok_def scan_failed_def manifest_main_def

lemma watcher_main_eval:
  "watcher_main = \<lparr>callback = True, callbackOnError = Returns (),
     currentState = Some main_aaa, isProcessing = False, inFlight = [],
     subscriptions = [HeadWatcher, RefsWatcher], pollingInterval = True,
     trace = [GetGitState]\<rparr>"
  by (simp add: watcher_main_def createGitWatcher_def startup_main_def subscribe_def)

subsection \<open>Single flight\<close>

lemma trigger_suspends:
  assumes "\<not> isProcessing w" and "isProcessing (step w (Trigger c g))"
  shows "\<exists>h ns. step w (Trigger c g)
            = await_handler h ns (perform [IsDetachedHead, GetGitState] (w\<lparr>isProcessing := True\<rparr>))"
  using assms
  by (auto simp add: handleGitChange_def finally_block_def catch_block_def Let_def perform_def
      split: if_splits outcome.splits option.splits bool.splits)

lemma is_scan_onStateChange [simp]: "filter is_scan (onStateChange cb s) = []"
  by (simp add: onStateChange_def)

lemma scans_begin [simp]: "filter is_scan (handler_begin h cb b) = []"
  by (cases h) (simp_all add: handler_begin_def handleBranchChange_begin_def handleCommit_begin_def)

lemma scans_manifest [simp]: "length (filter is_scan (handler_manifest h cb b r)) = 1"
  by (cases h) (simp_all add: handler_manifest_def handleBranchChange_manifest_def
      handleCommit_manifest_def)

text \<open>
  Claim C1. Single flight. A trigger (push or poll) that arrives while the in-flight flag
  is set returns at once: the state and the trace are unchanged, so git state is not read,
  nothing is classified and nothing is scanned. In particular, when a trigger has started
  a reconciliation, any further triggers issued before its manifest fetch settles and
  before its scan returns leave the scan pipeline invoked exactly once.
\<close>

theorem triggers_during_reconciliation_dropped:
  assumes reach: "w = run (createGitWatcher cb env) evs"
    and idle: "\<not> isProcessing w"
    and started: "isProcessing (step w (Trigger c g))"
    and triggers: "\<forall>e\<in>set ts \<union> set ts'. is_trigger e"
  shows "(isProcessing w' \<longrightarrow> step w' (Trigger c' g') = w')
    \<and> scanCalls (run w (Trigger c g # ts)) = scanCalls w
    \<and> scanCalls (run w (Trigger c g # ts @ Settle 0 (ManifestSettled m) now # ts'))
        = Suc (scanCalls w)"
proof -
  have "single_flight w"
    using reach by (simp add: single_flight_reachable)
  with idle have none: "inFlight w = []"
    by (simp add: single_flight_def)
  from trigger_suspends [OF idle started] obtain h ns where
    w1: "step w (Trigger c g)
           = await_handler h ns (perform [IsDetachedHead, GetGitState] (w\<lparr>isProcessing := True\<rparr>))"
    by blast
  define w1 where "w1 = step w (Trigger c g)"
  define w2 where "w2 = step w1 (Settle 0 (ManifestSettled m) now)"
  have w1_flag: "isProcessing w1"
    using started by (simp add: w1_def)
  have w1_scans: "scanCalls w1 = scanCalls w"
    unfolding w1_def w1 by (simp add: scanCalls_def await_handler_def)
  have w1_task: "inFlight w1 = [\<lparr>called = h, awaits = AwaitManifest, newState = ns\<rparr>]"
    unfolding w1_def w1 by (simp add: await_handler_def none)
  have w2_flag: "isProcessing w2"
    using w1_flag w1_task by (simp add: w2_def settle_def)
  have w2_scans: "scanCalls w2 = Suc (scanCalls w1)"
    using w1_task by (simp add: w2_def settle_def scanCalls_def)
  have ts: "run w1 ts = w1" and ts': "run w2 ts' = w2"
    using triggers w1_flag w2_flag by (simp_all add: triggers_dropped)
  have "run w (Trigger c g # ts) = w1"
    using ts by (simp add: w1_def)
  moreover have "run w (Trigger c g # ts @ Settle 0 (ManifestSettled m) now # ts') = w2"
    using ts ts' by (simp add: run_append w1_def [symmetric] w2_def [symmetric] del: step.simps)
  ultimately show ?thesis
    using w1_scans w2_scans by (simp add: trigger_dropped del: step.simps)
qed

theorem triggers_during_reconciliation_dropped_witness:
  "step (step watcher_main (Trigger Poll (reads main_bbb))) (Trigger HeadWatcher (reads feature_x))
     = step watcher_main (Trigger Poll (reads main_bbb))
   \<and> scanCalls (run watcher_main
        [Trigger Poll (reads main_bbb), Trigger HeadWatcher (reads feature_x),
         Settle 0 (ManifestSettled (Returns manifest_main)) 1,
         Trigger Poll (reads feature_x)]) = 1"
proof -
  have reach: "watcher_main = run (createGitWatcher True startup_main) []"
    by (simp add: watcher_main_def)
  have idle: "\<not> isProcessing watcher_main"
    by (simp add: watcher_main_eval)
  have started: "isProcessing (step watcher_main (Trigger Poll (reads main_bbb)))"
    by (simp add: watcher_main_eval model_defs input_defs)
  have triggers: "\<forall>e\<in>set [Trigger HeadWatcher (reads feature_x)] \<union> set [Trigger Poll (reads feature_x)].
      is_trigger e"
    by simp
  have zero: "scanCalls watcher_main = 0"
    by (simp add: watcher_main_eval scanCalls_def)
  from triggers_during_reconciliation_dropped
    [OF reach idle started triggers,
      where w' = "step watcher_main (Trigger Poll (reads main_bbb))"
        and c' = HeadWatcher and g' = "reads feature_x"
        and m = "Returns manifest_main" and now = 1]
    started zero
  show ?thesis by (simp del: step.simps run_Cons)
qed

subsection \<open>Classification of a trigger\<close>

text \<open>
  Claim C2. Branch switch has priority. When the handler runs with a last-known snapshot
  \<open>prev\<close> and reads a non-detached snapshot \<open>cur\<close> whose branch differs from that of
  \<open>prev\<close>, it calls \<^verbatim>\<open>handleBranchChange\<close> for the branch of \<open>cur\<close>, whether or not the
  commit differs as well; it calls \<^verbatim>\<open>handleCommit\<close> exactly when the branch is unchanged
  and the commit differs.
\<close>

theorem branch_switch_takes_priority:
  assumes "\<not> isProcessing w" and "live c w"
    and "isDetachedHead g = Returns False" and "getGitState g = Returns (Some cur)"
    and "currentState w = Some prev"
  shows "(branch cur \<noteq> branch prev \<longrightarrow>
            step w (Trigger c g)
              = await_handler HandleBranchChange cur
                  (perform [IsDetachedHead, GetGitState] (w\<lparr>isProcessing := True\<rparr>)))
    \<and> ((step w (Trigger c g)
              = await_handler HandleCommit cur
                  (perform [IsDetachedHead, GetGitState] (w\<lparr>isProcessing := True\<rparr>)))
          = (branch cur = branch prev \<and> commit cur \<noteq> commit prev))"
proof -
  let ?w = "perform [IsDetachedHead, GetGitState] (w\<lparr>isProcessing := True\<rparr>)"
  have differ: "await_handler HandleBranchChange cur ?w \<noteq> await_handler HandleCommit cur ?w"
  proof
    assume "await_handler HandleBranchChange cur ?w = await_handler HandleCommit cur ?w"
    then have "inFlight (await_handler HandleBranchChange cur ?w)
        = inFlight (await_handler HandleCommit cur ?w)"
      by simp
    then show False by (simp add: await_handler_def)
  qed
  have idle: "finally_block ?w \<noteq> await_handler HandleCommit cur ?w"
  proof
    assume "finally_block ?w = await_handler HandleCommit cur ?w"
    then have "isProcessing (finally_block ?w) = isProcessing (await_handler HandleCommit cur ?w)"
      by simp
    then show False by (simp add: await_handler_def finally_block_def)
  qed
  have step_eq: "step w (Trigger c g) =
      (if branch prev = branch cur \<and> commit prev = commit cur then finally_block ?w
       else if branch prev \<noteq> branch cur then await_handler HandleBranchChange cur ?w
       else await_handler HandleCommit cur ?w)"
    using assms by (simp add: handleGitChange_def Let_def perform_def)
  show ?thesis
    unfolding step_eq using differ idle by auto
qed

theorem branch_switch_takes_priority_witness:
  "map called (inFlight (step watcher_main (Trigger Poll (reads feature_x)))) = [HandleBranchChange]
   \<and> map called (inFlight (step watcher_main (Trigger Poll (reads main_bbb)))) = [HandleCommit]"
proof -
  have a: "\<not> isProcessing watcher_main" and b: "live Poll watcher_main"
    and c: "currentState watcher_main = Some main_aaa"
    by (simp_all add: watcher_main_eval live_def)
  have x: "isDetachedHead (reads feature_x) = Returns False"
    "getGitState (reads feature_x) = Returns (Some feature_x)"
    and y: "isDetachedHead (reads main_bbb) = Returns False"
    "getGitState (reads main_bbb) = Returns (Some main_bbb)"
    by (simp_all add: reads_def)
  from branch_switch_takes_priority [OF a b x c] branch_switch_takes_priority [OF a b y c]
  show ?thesis
    by (simp add: await_handler_def watcher_main_eval main_aaa_def main_bbb_def feature_x_def)
qed

text \<open>
  Claim C6, as the code has it. When there is a last-known snapshot, the trigger does not
  find a detached HEAD, and the snapshot read has the branch and the commit of the
  last-known one, the handler only performs its two reads: it reports nothing to the
  callback, does not invoke the scan pipeline, and leaves the last-known snapshot and
  every other variable as they were.
\<close>

theorem nochange_is_side_effect_free:
  assumes "\<not> isProcessing w" and "live c w"
    and "isDetachedHead g = Returns False" and "getGitState g = Returns (Some cur)"
    and "currentState w = Some prev"
    and "branch cur = branch prev" and "commit cur = commit prev"
  shows "step w (Trigger c g) = w\<lparr>trace := trace w @ [IsDetachedHead, GetGitState]\<rparr>
    \<and> reported (since w (step w (Trigger c g))) = []
    \<and> scanCalls (step w (Trigger c g)) = scanCalls w
    \<and> currentState (step w (Trigger c g)) = Some prev"
proof -
  have "step w (Trigger c g) = w\<lparr>trace := trace w @ [IsDetachedHead, GetGitState]\<rparr>"
    using assms by (simp add: handleGitChange_def perform_def finally_block_def)
  then show ?thesis
    using assms by (simp add: since_def scanCalls_def)
qed

theorem nochange_is_side_effect_free_witness:
  "step watcher_main (Trigger Poll (reads main_aaa))
     = watcher_main\<lparr>trace := [GetGitState, IsDetachedHead, GetGitState]\<rparr>
   \<and> scanCalls (step watcher_main (Trigger Poll (reads main_aaa))) = 0"
proof -
  have "\<not> isProcessing watcher_main" and "live Poll watcher_main"
    and "isDetachedHead (reads main_aaa) = Returns False"
    and "getGitState (reads main_aaa) = Returns (Some main_aaa)"
    and "currentState watcher_main = Some main_aaa"
    by (simp_all add: watcher_main_eval live_def reads_def)
  from nochange_is_side_effect_free [OF this]
  show ?thesis by (simp add: watcher_main_eval scanCalls_def)
qed

text \<open>
  The claim as it was stated (every pair of observations with equal branch and equal
  revision) fails for two observations of the same detached HEAD: the handler keeps no
  snapshot while detached and does not compare, so the second trigger, which reads what the
  first one read, hands the idle status to the callback once more.
\<close>

theorem nochange_is_side_effect_free_counterexample:
  "currentState (run watcher_main [Trigger Poll reads_detached]) = None
   \<and> since (run watcher_main [Trigger Poll reads_detached])
        (run watcher_main [Trigger Poll reads_detached, Trigger Poll reads_detached])
       = [IsDetachedHead, OnStateChange detachedHeadState]
   \<and> reported
        (since (run watcher_main [Trigger Poll reads_detached])
           (run watcher_main [Trigger Poll reads_detached, Trigger Poll reads_detached]))
       = [detachedHeadState]"
  by (simp add: model_defs input_defs Let_def)

subsection \<open>Detached HEAD\<close>

lemma handleGitChange_sources:
  "subscriptions (handleGitChange g w) = subscriptions w
   \<and> pollingInterval (handleGitChange g w) = pollingInterval w"
  by (simp add: handleGitChange_def finally_block_def catch_block_def await_handler_def Let_def
      split: outcome.splits option.splits bool.splits)

lemma triggers_keep_sources:
  assumes "\<forall>e\<in>set ts. is_trigger e"
  shows "live c (run w ts) = live c w"
  using assms
proof (induction ts arbitrary: w)
  case Nil
  then show ?case by simp
next
  case (Cons e ts)
  then obtain c' g where "e = Trigger c' g"
    by (cases e) auto
  with Cons show ?case
    by (simp add: live_def handleGitChange_sources)
qed

lemma finds_detached_is_trigger: "finds_detached e \<Longrightarrow> is_trigger e"
  by (cases e) simp_all

lemma detached_trigger:
  assumes "\<not> isProcessing w" and "finds_detached e"
  shows "\<not> isProcessing (step w e) \<and> currentState (step w e) = None \<or> step w e = w"
  using assms
  by (cases e) (simp_all add: handleGitChange_def finally_block_def)

lemma detached_trigger_scans:
  assumes "\<not> isProcessing w" and "finds_detached e"
  shows "scanCalls (step w e) = scanCalls w"
  using assms
  by (cases e) (simp_all add: handleGitChange_def finally_block_def scanCalls_def)

lemma detached_triggers:
  assumes "\<not> isProcessing w" and "currentState w = None" and "\<forall>e\<in>set ts. finds_detached e"
  shows "\<not> isProcessing (run w ts) \<and> currentState (run w ts) = None
    \<and> scanCalls (run w ts) = scanCalls w"
  using assms
proof (induction ts arbitrary: w)
  case Nil
  then show ?case by simp
next
  case (Cons e ts)
  from Cons.prems have e: "finds_detached e" by simp
  from detached_trigger [OF Cons.prems(1) e] Cons.prems(1,2)
  have "\<not> isProcessing (step w e)" and "currentState (step w e) = None"
    by auto
  with Cons.IH [of "step w e"] Cons.prems(3) detached_trigger_scans [OF Cons.prems(1) e]
  show ?case by simp
qed

text \<open>
  Claim C5. Detached HEAD. When a trigger finds the repository in detached HEAD state, the
  status reported is idle, with a message that says so and no branch; the scan pipeline
  is not invoked and the last-known snapshot is cleared. Further triggers that find the
  repository detached change neither, and the first trigger that finds a snapshot again
  starts a reconciliation through \<^verbatim>\<open>handleBranchChange\<close>.
\<close>

theorem detached_head_suspends_indexing:
  assumes idle: "\<not> isProcessing w" and "live c w" and "callback w"
    and "isDetachedHead g = Returns True"
    and "\<forall>e\<in>set ts. finds_detached e"
  shows "step w (Trigger c g)
      = w\<lparr>currentState := None,
           trace := trace w @ [IsDetachedHead, OnStateChange detachedHeadState]\<rparr>
    \<and> status detachedHeadState = Idle \<and> gitBranch detachedHeadState = None
    \<and> message detachedHeadState = ''Detached HEAD state - indexing disabled''
    \<and> currentState (run w (Trigger c g # ts)) = None
    \<and> scanCalls (run w (Trigger c g # ts)) = scanCalls w
    \<and> (live c' w \<longrightarrow>
         run w (Trigger c g # ts @ [Trigger c' (reads ns)])
           = await_handler HandleBranchChange ns
               (perform [IsDetachedHead, GetGitState]
                  ((run w (Trigger c g # ts))\<lparr>isProcessing := True\<rparr>)))"
proof -
  define w1 where "w1 = step w (Trigger c g)"
  have w1: "w1 = w\<lparr>currentState := None,
                    trace := trace w @ [IsDetachedHead, OnStateChange detachedHeadState]\<rparr>"
    using assms by (simp add: w1_def handleGitChange_def perform_def finally_block_def
        onStateChange_def)
  have "\<not> isProcessing w1" and "currentState w1 = None" and scans: "scanCalls w1 = scanCalls w"
    using idle by (simp_all add: w1 scanCalls_def)
  from detached_triggers [OF this(1,2) assms(5)] scans
  have rest: "\<not> isProcessing (run w1 ts)" "currentState (run w1 ts) = None"
    "scanCalls (run w1 ts) = scanCalls w"
    by simp_all
  have "live c' w1 = live c' w"
    by (simp add: w1 live_def)
  with assms(5) have live_kept: "live c' (run w1 ts) = live c' w"
    by (simp add: triggers_keep_sources finds_detached_is_trigger)
  have "live c' w \<Longrightarrow> step (run w1 ts) (Trigger c' (reads ns))
      = await_handler HandleBranchChange ns
               (perform [IsDetachedHead, GetGitState] ((run w1 ts)\<lparr>isProcessing := True\<rparr>))"
    using rest live_kept by (simp add: handleGitChange_def reads_def Let_def perform_def)
  then show ?thesis
    using w1 rest
    by (simp add: w1_def [symmetric] run_append detachedHeadState_def del: step.simps)
qed

theorem detached_head_suspends_indexing_witness:
  "step watcher_main (Trigger HeadWatcher reads_detached)
     = watcher_main\<lparr>currentState := None,
         trace := [GetGitState, IsDetachedHead, OnStateChange detachedHeadState]\<rparr>
   \<and> currentState (run watcher_main [Trigger HeadWatcher reads_detached, Trigger Poll reads_detached])
       = None
   \<and> scanCalls (run watcher_main [Trigger HeadWatcher reads_detached, Trigger Poll reads_detached])
       = 0"
proof -
  have "\<not> isProcessing watcher_main" and "live HeadWatcher watcher_main"
    and "callback watcher_main"
    and "isDetachedHead reads_detached = Returns True"
    and "\<forall>e\<in>set [Trigger Poll reads_detached]. finds_detached e"
    by (simp_all add: watcher_main_eval live_def reads_detached_def)
  from detached_head_suspends_indexing [OF this]
  have "step watcher_main (Trigger HeadWatcher reads_detached)
      = watcher_main\<lparr>currentState := None,
           trace := trace watcher_main @ [IsDetachedHead, OnStateChange detachedHeadState]\<rparr>"
    and "currentState (run watcher_main [Trigger HeadWatcher reads_detached, Trigger Poll reads_detached])
      = None"
    and "scanCalls (run watcher_main [Trigger HeadWatcher reads_detached, Trigger Poll reads_detached])
      = scanCalls watcher_main"
    by (simp_all del: step.simps run_Cons)
  moreover have "trace watcher_main = [GetGitState]" and "scanCalls watcher_main = 0"
    by (simp_all add: watcher_main_eval scanCalls_def)
  ultimately show ?thesis by (simp del: step.simps run_Cons)
qed

subsection \<open>One reconciliation, step by step\<close>

lemma settle_manifest:
  assumes "inFlight w = [t]" and "awaits t = AwaitManifest"
  shows "step w (Settle 0 (ManifestSettled r) now)
    = (perform (handler_manifest (called t) (callback w) (branch (newState t)) r) w)
        \<lparr>inFlight := [t\<lparr>awaits := AwaitScan\<rparr>]\<rparr>"
  using assms by (simp add: settle_def)

lemma settle_scan_ok:
  assumes "inFlight w = [t]" and "awaits t = AwaitScan" and "success result"
  shows "step w (Settle 0 (ScanSettled (Returns result)) now)
    = (perform [GetServerManifest (branch (newState t))] w)
        \<lparr>inFlight := [t\<lparr>awaits := AwaitUpdatedManifest result\<rparr>]\<rparr>"
  using assms
  by (cases "called t")
    (simp_all add: settle_def handler_scan_def handleBranchChange_scan_def handleCommit_scan_def)

lemma handler_scan_fails:
  assumes "scan_fails r"
  shows "snd (handler_scan h cb onError b r)
    = (case callback_throws cb onError of None \<Rightarrow> Returned | Some e \<Rightarrow> Rejected e)"
  using assms
  by (cases r; cases h)
    (simp_all add: handler_scan_def handleBranchChange_scan_def handleCommit_scan_def
      handleBranchChange_catch_def handleCommit_catch_def)

lemma settle_scan_failed:
  assumes "inFlight w = [t]" and "awaits t = AwaitScan" and "scan_fails r"
    and "callback_throws (callback w) (callbackOnError w) = None"
  shows "step w (Settle 0 (ScanSettled r) now)
    = (perform (fst (handler_scan (called t) (callback w) (callbackOnError w)
                       (branch (newState t)) r)) w)
        \<lparr>currentState := Some (newState t), inFlight := [], isProcessing := False\<rparr>"
  using assms
    handler_scan_fails [OF assms(3), of "called t" "callback w" "callbackOnError w"
      "branch (newState t)"]
  by (cases "handler_scan (called t) (callback w) (callbackOnError w) (branch (newState t)) r")
    (simp add: settle_def resume_handleGitChange_def finally_block_def)

lemma settle_scan_rethrown:
  assumes "inFlight w = [t]" and "awaits t = AwaitScan" and "scan_fails r"
    and "callback_throws (callback w) (callbackOnError w) = Some e"
  shows "step w (Settle 0 (ScanSettled r) now)
    = (perform (fst (handler_scan (called t) (callback w) (callbackOnError w)
                       (branch (newState t)) r) @ [CaptureEvent e]) w)
        \<lparr>inFlight := [], isProcessing := False\<rparr>"
  using assms
    handler_scan_fails [OF assms(3), of "called t" "callback w" "callbackOnError w"
      "branch (newState t)"]
  by (cases "handler_scan (called t) (callback w) (callbackOnError w) (branch (newState t)) r")
    (simp add: settle_def rethrown_handleGitChange_def finally_block_def catch_block_def
      perform_def)

lemma settle_updated:
  assumes "inFlight w = [t]" and "awaits t = AwaitUpdatedManifest result"
  shows "step w (Settle 0 (ManifestSettled r) now)
    = (perform (handler_updated (called t) (callback w) (branch (newState t)) result r now) w)
        \<lparr>currentState := Some (newState t), inFlight := [], isProcessing := False\<rparr>"
  using assms by (simp add: settle_def resume_handleGitChange_def finally_block_def)

text \<open>What a failed scan makes the function report.\<close>

lemma failed_scan_report:
  assumes "scan_fails r"
  shows "\<exists>s. fst (handler_scan h True onError b r) = [OnStateChange s] \<and> status s = Error
    \<and> message s \<noteq> [] \<and> gitBranch s = Some b
    \<and> error s = Some (case r of Throws e \<Rightarrow> e
         | Returns result \<Rightarrow>
             ''Scan failed with '' @ string_of_nat (length (errors result)) @ '' errors'')"
  using assms
  by (cases r; cases h)
    (simp_all add: handler_scan_def handleBranchChange_scan_def handleCommit_scan_def
      handleBranchChange_catch_def handleCommit_catch_def onStateChange_def)

text \<open>A trigger that finds a changed snapshot, followed by a fetch that settles either
  way, a scan that succeeds and a second fetch that settles either way.\<close>

lemma changed_trigger:
  assumes "\<not> isProcessing w" and "live c w"
    and "isDetachedHead g = Returns False" and "getGitState g = Returns (Some ns)"
    and "currentState w = Some prev"
    and "branch ns \<noteq> branch prev \<or> commit ns \<noteq> commit prev"
  shows "step w (Trigger c g)
    = await_handler (if branch ns \<noteq> branch prev then HandleBranchChange else HandleCommit) ns
        (perform [IsDetachedHead, GetGitState] (w\<lparr>isProcessing := True\<rparr>))"
  using assms by (auto simp add: handleGitChange_def Let_def perform_def)

lemma reported_append [simp]: "reported (es @ es') = reported es @ reported es'"
  by (induction es rule: reported.induct) simp_all

lemma reported_onStateChange [simp]: "reported (onStateChange True s) = [s]"
  by (simp add: onStateChange_def)

lemma since_self [simp]: "since w w = []"
  by (simp add: since_def)

lemma since_append: "trace w' = trace w @ es \<Longrightarrow> since w w' = es"
  by (simp add: since_def)



text \<open>The watcher after a new commit on \<^verbatim>\<open>main\<close> was found and the manifest was
  fetched: the scan is pending.\<close>

lemma committing_eval:
  "inFlight (run watcher_main
       [Trigger Poll (reads main_bbb), Settle 0 (ManifestSettled (Returns manifest_main)) 1])
     = [\<lparr>called = HandleCommit, awaits = AwaitScan, newState = main_bbb\<rparr>]"
  "callback (run watcher_main
       [Trigger Poll (reads main_bbb), Settle 0 (ManifestSettled (Returns manifest_main)) 1])"
  "live Poll (run watcher_main
       [Trigger Poll (reads main_bbb), Settle 0 (ManifestSettled (Returns manifest_main)) 1])"
  "scanCalls (run watcher_main
       [Trigger Poll (reads main_bbb), Settle 0 (ManifestSettled (Returns manifest_main)) 1]) = 1"
  by (simp_all add: model_defs input_defs Let_def)

subsection \<open>Failures during a reconciliation\<close>

text \<open>A whole reconciliation from a watcher at rest: a trigger that finds a changed
  snapshot, a fetch that settles either way, a scan that succeeds and a second fetch that
  settles either way. The trace is written out in full, for each of the two functions.\<close>

lemma full_reconciliation:
  assumes rest: "\<not> isProcessing w" "inFlight w = []" and cb: "callback w"
    and found: "live c w" "isDetachedHead g = Returns False" "getGitState g = Returns (Some ns)"
    and changed: "\<forall>p. currentState w = Some p \<longrightarrow> branch ns \<noteq> branch p \<or> commit ns \<noteq> commit p"
    and ok: "success result'"
    and wend: "wend = run w [Trigger c g, Settle 0 (ManifestSettled m) n1,
                   Settle 0 (ScanSettled (Returns result')) n2,
                   Settle 0 (ManifestSettled m') n3]"
    and fetched: "fetched = (case m of Returns x \<Rightarrow> Some x | Throws e \<Rightarrow> None)"
    and updated: "updated = (case m' of Returns x \<Rightarrow> Some x | Throws e \<Rightarrow> None)"
  shows "trace wend = trace w @ [IsDetachedHead, GetGitState] @
           (if (case currentState w of None \<Rightarrow> True | Some p \<Rightarrow> branch ns \<noteq> branch p) then
              [OnStateChange
                    \<lparr>status = Scanning,
                     message = ''Branch changed to '' @ branch ns @ '', fetching manifest...'',
                     gitBranch = Some (branch ns), error = None, lastSyncTime = None,
                     totalFiles = None, totalChunks = None, manifest = None\<rparr>,
                  GetServerManifest (branch ns),
                  OnStateChange
                    \<lparr>status = Scanning, message = ''Scanning branch '' @ branch ns @ ''...'',
                     gitBranch = Some (branch ns), error = None, lastSyncTime = None,
                     totalFiles = None, totalChunks = None, manifest = None\<rparr>,
                  ScanDirectory fetched,
                  GetServerManifest (branch ns),
                  OnStateChange
                    \<lparr>status = Watching,
                     message = ''Branch '' @ branch ns @ '' indexed successfully'',
                     gitBranch = Some (branch ns), error = None, lastSyncTime = Some n3,
                     totalFiles = Some (resultFilesProcessed result'),
                     totalChunks = Some (resultChunksIndexed result'),
                     manifest = updated\<rparr>]
            else
              [OnStateChange
                    \<lparr>status = Scanning, message = ''New commit detected, updating index...'',
                     gitBranch = Some (branch ns), error = None, lastSyncTime = None,
                     totalFiles = None, totalChunks = None, manifest = None\<rparr>,
                  GetServerManifest (branch ns),
                  ScanDirectory fetched,
                  GetServerManifest (branch ns),
                  OnStateChange
                    \<lparr>status = Watching, message = ''Index updated after commit'',
                     gitBranch = Some (branch ns), error = None, lastSyncTime = Some n3,
                     totalFiles = Some (resultFilesProcessed result'),
                     totalChunks = Some (resultChunksIndexed result'),
                     manifest = updated\<rparr>])"
    and "currentState wend = Some ns" and "\<not> isProcessing wend" and "inFlight wend = []"
proof -
  define h where "h = (if (case currentState w of None \<Rightarrow> True | Some p \<Rightarrow> branch ns \<noteq> branch p)
    then HandleBranchChange else HandleCommit)"
  define w0 where "w0 = step w (Trigger c g)"
  have w0: "w0 = await_handler h ns (perform [IsDetachedHead, GetGitState] (w\<lparr>isProcessing := True\<rparr>))"
    using rest found changed
    by (cases "currentState w")
      (auto simp add: w0_def h_def handleGitChange_def Let_def perform_def)
  define t where "t = \<lparr>called = h, awaits = AwaitManifest, newState = ns\<rparr>"
  have task: "inFlight w0 = [t]" "awaits t = AwaitManifest" and cb0: "callback w0"
    using rest cb by (simp_all add: w0 t_def await_handler_def)
  define w1 where "w1 = step w0 (Settle 0 (ManifestSettled m) n1)"
  define w2 where "w2 = step w1 (Settle 0 (ScanSettled (Returns result')) n2)"
  define w3 where "w3 = step w2 (Settle 0 (ManifestSettled m') n3)"
  have w1: "w1 = (perform (handler_manifest h True (branch ns) m) w0)
      \<lparr>inFlight := [t\<lparr>awaits := AwaitScan\<rparr>]\<rparr>"
    using settle_manifest [OF task, of m n1] cb0 by (simp add: w1_def t_def del: step.simps)
  have w2: "w2 = (perform [GetServerManifest (branch ns)] w1)
      \<lparr>inFlight := [t\<lparr>awaits := AwaitUpdatedManifest result'\<rparr>]\<rparr>"
    unfolding w2_def
    using settle_scan_ok [of w1 "t\<lparr>awaits := AwaitScan\<rparr>" result' n2] ok
    by (simp add: w1 t_def del: step.simps)
  have w3: "w3 = (perform (handler_updated h True (branch ns) result' m' n3) w2)
      \<lparr>currentState := Some ns, inFlight := [], isProcessing := False\<rparr>"
    unfolding w3_def
    using settle_updated [of w2 "t\<lparr>awaits := AwaitUpdatedManifest result'\<rparr>" result' m' n3] cb0
    by (simp add: w2 w1 t_def del: step.simps)
  have wend3: "wend = w3"
    by (simp add: wend w0_def w1_def w2_def w3_def del: step.simps)
  have tr: "trace w3 = trace w @ [IsDetachedHead, GetGitState] @ handler_begin h True (branch ns)
      @ handler_manifest h True (branch ns) m @ [GetServerManifest (branch ns)]
      @ handler_updated h True (branch ns) result' m' n3"
    using cb by (simp add: w3 w2 w1 w0 await_handler_def)
  show "trace wend = trace w @ [IsDetachedHead, GetGitState] @
           (if (case currentState w of None \<Rightarrow> True | Some p \<Rightarrow> branch ns \<noteq> branch p) then
              [OnStateChange
                    \<lparr>status = Scanning,
                     message = ''Branch changed to '' @ branch ns @ '', fetching manifest...'',
                     gitBranch = Some (branch ns), error = None, lastSyncTime = None,
                     totalFiles = None, totalChunks = None, manifest = None\<rparr>,
                  GetServerManifest (branch ns),
                  OnStateChange
                    \<lparr>status = Scanning, message = ''Scanning branch '' @ branch ns @ ''...'',
                     gitBranch = Some (branch ns), error = None, lastSyncTime = None,
                     totalFiles = None, totalChunks = None, manifest = None\<rparr>,
                  ScanDirectory fetched,
                  GetServerManifest (branch ns),
                  OnStateChange
                    \<lparr>status = Watching,
                     message = ''Branch '' @ branch ns @ '' indexed successfully'',
                     gitBranch = Some (branch ns), error = None, lastSyncTime = Some n3,
                     totalFiles = Some (resultFilesProcessed result'),
                     totalChunks = Some (resultChunksIndexed result'),
                     manifest = updated\<rparr>]
            else
              [OnStateChange
                    \<lparr>status = Scanning, message = ''New commit detected, updating index...'',
                     gitBranch = Some (branch ns), error = None, lastSyncTime = None,
                     totalFiles = None, totalChunks = None, manifest = None\<rparr>,
                  GetServerManifest (branch ns),
                  ScanDirectory fetched,
                  GetServerManifest (branch ns),
                  OnStateChange
                    \<lparr>status = Watching, message = ''Index updated after commit'',
                     gitBranch = Some (branch ns), error = None, lastSyncTime = Some n3,
                     totalFiles = Some (resultFilesProcessed result'),
                     totalChunks = Some (resultChunksIndexed result'),
                     manifest = updated\<rparr>])"
    unfolding wend3 tr fetched updated
    by (cases m; cases m')
      (simp_all add: h_def handler_begin_def handler_manifest_def handler_updated_def
        handleBranchChange_begin_def handleBranchChange_manifest_def
        handleBranchChange_updated_def handleCommit_begin_def handleCommit_manifest_def
        handleCommit_updated_def onStateChange_def)
  show "currentState wend = Some ns" and "\<not> isProcessing wend" and "inFlight wend = []"
    by (simp_all add: wend3 w3)
qed

text \<open>
  Claim C3. Scan failure. When the scan pipeline resolves with \<^verbatim>\<open>success\<close> false during
  a reconciliation (by either function), the status handed to the callback is an error
  with a non-empty message. The invocation of the handler ends with the flag cleared,
  whether the callback returns from that report (then the new snapshot is the last-known
  one) or throws (then telemetry records it and the last-known snapshot is kept). A later
  trigger that finds a snapshot changed against the last-known one runs a whole
  reconciliation: the two reads, the scanning status, the manifest fetch, for a branch
  switch the second scanning status, one scan with the manifest fetched, the second fetch
  and the watching status with the counts of the scan; after it the snapshot found is the
  last-known one.
\<close>

theorem scan_failure_reported:
  assumes task: "inFlight w = [t]" "awaits t = AwaitScan" and cb: "callback w"
    and failed: "\<not> success result"
    and later: "live c w" "isDetachedHead g = Returns False"
      "getGitState g = Returns (Some ns)"
    and changed: "\<forall>p. currentState (step w (Settle 0 (ScanSettled (Returns result)) now)) = Some p
      \<longrightarrow> branch ns \<noteq> branch p \<or> commit ns \<noteq> commit p"
    and ok: "success result'"
  shows "let w' = step w (Settle 0 (ScanSettled (Returns result)) now);
             w'' = run w' [Trigger c g, Settle 0 (ManifestSettled m) n1,
                           Settle 0 (ScanSettled (Returns result')) n2,
                           Settle 0 (ManifestSettled m') n3];
             fetched = (case m of Returns x \<Rightarrow> Some x | Throws e \<Rightarrow> None);
             updated = (case m' of Returns x \<Rightarrow> Some x | Throws e \<Rightarrow> None)
         in (\<exists>s. trace w' = trace w @ OnStateChange s
                  # (case callbackOnError w of Returns u \<Rightarrow> [] | Throws e \<Rightarrow> [CaptureEvent e])
                \<and> status s = Error
                \<and> message s \<noteq> [] \<and> gitBranch s = Some (branch (newState t))
                \<and> error s = Some (''Scan failed with '' @ string_of_nat (length (errors result))
                                    @ '' errors''))
          \<and> \<not> isProcessing w' \<and> inFlight w' = []
          \<and> currentState w'
              = (case callbackOnError w of Returns u \<Rightarrow> Some (newState t)
                 | Throws e \<Rightarrow> currentState w)
          \<and> scanCalls w' = scanCalls w
          \<and> since w' w'' = [IsDetachedHead, GetGitState] @
               (if (case currentState w' of None \<Rightarrow> True | Some p \<Rightarrow> branch ns \<noteq> branch p) then
                  [OnStateChange
                    \<lparr>status = Scanning,
                     message = ''Branch changed to '' @ branch ns @ '', fetching manifest...'',
                     gitBranch = Some (branch ns), error = None, lastSyncTime = None,
                     totalFiles = None, totalChunks = None, manifest = None\<rparr>,
                  GetServerManifest (branch ns),
                  OnStateChange
                    \<lparr>status = Scanning, message = ''Scanning branch '' @ branch ns @ ''...'',
                     gitBranch = Some (branch ns), error = None, lastSyncTime = None,
                     totalFiles = None, totalChunks = None, manifest = None\<rparr>,
                  ScanDirectory fetched,
                  GetServerManifest (branch ns),
                  OnStateChange
                    \<lparr>status = Watching,
                     message = ''Branch '' @ branch ns @ '' indexed successfully'',
                     gitBranch = Some (branch ns), error = None, lastSyncTime = Some n3,
                     totalFiles = Some (resultFilesProcessed result'),
                     totalChunks = Some (resultChunksIndexed result'),
                     manifest = updated\<rparr>]
                else
                  [OnStateChange
                    \<lparr>status = Scanning, message = ''New commit detected, updating index...'',
                     gitBranch = Some (branch ns), error = None, lastSyncTime = None,
                     totalFiles = None, totalChunks = None, manifest = None\<rparr>,
                  GetServerManifest (branch ns),
                  ScanDirectory fetched,
                  GetServerManifest (branch ns),
                  OnStateChange
                    \<lparr>status = Watching, message = ''Index updated after commit'',
                     gitBranch = Some (branch ns), error = None, lastSyncTime = Some n3,
                     totalFiles = Some (resultFilesProcessed result'),
                     totalChunks = Some (resultChunksIndexed result'),
                     manifest = updated\<rparr>])
          \<and> scanCalls w'' = Suc (scanCalls w')
          \<and> currentState w'' = Some ns \<and> \<not> isProcessing w'' \<and> inFlight w'' = []"
proof -
  define w' where "w' = step w (Settle 0 (ScanSettled (Returns result)) now)"
  define w'' where "w'' = run w' [Trigger c g, Settle 0 (ManifestSettled m) n1,
                           Settle 0 (ScanSettled (Returns result')) n2,
                           Settle 0 (ManifestSettled m') n3]"
  define fetched where "fetched = (case m of Returns x \<Rightarrow> Some x | Throws e \<Rightarrow> None)"
  define updated where "updated = (case m' of Returns x \<Rightarrow> Some x | Throws e \<Rightarrow> None)"
  let ?es = "fst (handler_scan (called t) True (callbackOnError w) (branch (newState t))
    (Returns result))"
  have fails: "scan_fails (Returns result)"
    using failed by simp
  from failed_scan_report [OF fails, of "called t" "callbackOnError w" "branch (newState t)"]
  obtain s where s: "?es = [OnStateChange s]" "status s = Error" "message s \<noteq> []"
    "gitBranch s = Some (branch (newState t))"
    "error s = Some (''Scan failed with '' @ string_of_nat (length (errors result)) @ '' errors'')"
    by auto
  have after: "trace w' = trace w @ OnStateChange s
        # (case callbackOnError w of Returns u \<Rightarrow> [] | Throws e \<Rightarrow> [CaptureEvent e])
    \<and> \<not> isProcessing w' \<and> inFlight w' = []
    \<and> currentState w' = (case callbackOnError w of Returns u \<Rightarrow> Some (newState t)
                 | Throws e \<Rightarrow> currentState w)
    \<and> scanCalls w' = scanCalls w \<and> callback w' \<and> live c w'"
  proof (cases "callbackOnError w")
    case (Returns u)
    then have "callback_throws (callback w) (callbackOnError w) = None"
      by (simp add: callback_throws_def)
    from settle_scan_failed [OF task fails this, of now] cb s(1) Returns later(1)
    show ?thesis
      by (simp add: w'_def scanCalls_def live_def del: step.simps)
  next
    case (Throws e)
    then have "callback_throws (callback w) (callbackOnError w) = Some e"
      using cb by (simp add: callback_throws_def)
    from settle_scan_rethrown [OF task fails this, of now] cb s(1) Throws later(1)
    show ?thesis
      by (simp add: w'_def scanCalls_def live_def del: step.simps)
  qed
  then have first: "trace w' = trace w @ OnStateChange s
        # (case callbackOnError w of Returns u \<Rightarrow> [] | Throws e \<Rightarrow> [CaptureEvent e])"
    "\<not> isProcessing w'" "inFlight w' = []"
    "currentState w' = (case callbackOnError w of Returns u \<Rightarrow> Some (newState t)
                 | Throws e \<Rightarrow> currentState w)"
    "scanCalls w' = scanCalls w" "callback w'" "live c w'"
    by blast+
  have changed': "\<forall>p. currentState w' = Some p \<longrightarrow> branch ns \<noteq> branch p \<or> commit ns \<noteq> commit p"
    using changed by (simp add: w'_def)
  note full = full_reconciliation
    [OF first(2,3,6,7) later(2,3) changed' ok w''_def fetched_def updated_def]
  have since: "since w' w'' = [IsDetachedHead, GetGitState] @
               (if (case currentState w' of None \<Rightarrow> True | Some p \<Rightarrow> branch ns \<noteq> branch p) then
                  [OnStateChange
                    \<lparr>status = Scanning,
                     message = ''Branch changed to '' @ branch ns @ '', fetching manifest...'',
                     gitBranch = Some (branch ns), error = None, lastSyncTime = None,
                     totalFiles = None, totalChunks = None, manifest = None\<rparr>,
                  GetServerManifest (branch ns),
                  OnStateChange
                    \<lparr>status = Scanning, message = ''Scanning branch '' @ branch ns @ ''...'',
                     gitBranch = Some (branch ns), error = None, lastSyncTime = None,
                     totalFiles = None, totalChunks = None, manifest = None\<rparr>,
                  ScanDirectory fetched,
                  GetServerManifest (branch ns),
                  OnStateChange
                    \<lparr>status = Watching,
                     message = ''Branch '' @ branch ns @ '' indexed successfully'',
                     gitBranch = Some (branch ns), error = None, lastSyncTime = Some n3,
                     totalFiles = Some (resultFilesProcessed result'),
                     totalChunks = Some (resultChunksIndexed result'),
                     manifest = updated\<rparr>]
                else
                  [OnStateChange
                    \<lparr>status = Scanning, message = ''New commit detected, updating index...'',
                     gitBranch = Some (branch ns), error = None, lastSyncTime = None,
                     totalFiles = None, totalChunks = None, manifest = None\<rparr>,
                  GetServerManifest (branch ns),
                  ScanDirectory fetched,
                  GetServerManifest (branch ns),
                  OnStateChange
                    \<lparr>status = Watching, message = ''Index updated after commit'',
                     gitBranch = Some (branch ns), error = None, lastSyncTime = Some n3,
                     totalFiles = Some (resultFilesProcessed result'),
                     totalChunks = Some (resultChunksIndexed result'),
                     manifest = updated\<rparr>])"
    by (simp only: since_def full(1) append_eq_conv_conj drop_append) simp
  have scans: "scanCalls w'' = Suc (scanCalls w')"
    unfolding scanCalls_def full(1) by simp
  from first(1-5) s(2-5) since scans full(2-4) show ?thesis
    unfolding Let_def w'_def [symmetric] w''_def [symmetric] fetched_def [symmetric]
      updated_def [symmetric]
    by blast
qed

theorem scan_failure_reported_witness:
  "\<not> isProcessing
       (step (run watcher_main
                [Trigger Poll (reads main_bbb), Settle 0 (ManifestSettled (Returns manifest_main)) 1])
          (Settle 0 (ScanSettled (Returns scan_failed)) 2))
   \<and> scanCalls
       (run (step (run watcher_main
                [Trigger Poll (reads main_bbb), Settle 0 (ManifestSettled (Returns manifest_main)) 1])
          (Settle 0 (ScanSettled (Returns scan_failed)) 2))
          [Trigger Poll (reads feature_x), Settle 0 (ManifestSettled (Throws ''no manifest'')) 3,
           Settle 0 (ScanSettled (Returns scan_ok)) 4,
           Settle 0 (ManifestSettled (Returns manifest_main)) 5]) = 2
   \<and> currentState
       (run (step (run watcher_main
                [Trigger Poll (reads main_bbb), Settle 0 (ManifestSettled (Returns manifest_main)) 1])
          (Settle 0 (ScanSettled (Returns scan_failed)) 2))
          [Trigger Poll (reads feature_x), Settle 0 (ManifestSettled (Throws ''no manifest'')) 3,
           Settle 0 (ScanSettled (Returns scan_ok)) 4,
           Settle 0 (ManifestSettled (Returns manifest_main)) 5]) = Some feature_x"
proof -
  have stage: "awaits \<lparr>called = HandleCommit, awaits = AwaitScan, newState = main_bbb\<rparr> = AwaitScan"
    and failed: "\<not> success scan_failed"
    and reads: "isDetachedHead (reads feature_x) = Returns False"
      "getGitState (reads feature_x) = Returns (Some feature_x)"
    and ok: "success scan_ok"
    by (simp_all add: scan_failed_def scan_ok_def reads_def)
  have changed: "\<forall>p. currentState
       (step (run watcher_main
                [Trigger Poll (reads main_bbb), Settle 0 (ManifestSettled (Returns manifest_main)) 1])
          (Settle 0 (ScanSettled (Returns scan_failed)) 2)) = Some p
      \<longrightarrow> branch feature_x \<noteq> branch p \<or> commit feature_x \<noteq> commit p"
    by (simp add: model_defs input_defs Let_def)
  from scan_failure_reported
    [OF committing_eval(1) stage committing_eval(2) failed committing_eval(3) reads changed ok,
      of "Throws ''no manifest''" 3 4 "Returns manifest_main" 5]
  show ?thesis
    unfolding Let_def using committing_eval(4) by (simp del: step.simps run_Cons)
qed



text \<open>
  Claim C10, as the code has it. When the scan of a reconciliation fails (it throws, or
  resolves with \<^verbatim>\<open>success\<close> false) and the callback, if one was given, returns from the
  error report, the function returns without throwing: nothing reaches the \<^verbatim>\<open>catch\<close>
  block of \<^verbatim>\<open>handleGitChange\<close>, the last-known snapshot becomes the new snapshot, and a
  repeated trigger that finds the same snapshot performs nothing but its two reads.
\<close>

theorem snapshot_replaced_after_failure:
  assumes task: "inFlight w = [t]" "awaits t = AwaitScan" and failed: "scan_fails r"
    and returns: "callback w \<longrightarrow> callbackOnError w = Returns ()"
    and again: "live c w" "isDetachedHead g = Returns False" "getGitState g = Returns (Some ns)"
      "branch ns = branch (newState t)" "commit ns = commit (newState t)"
  shows "let w' = step w (Settle 0 (ScanSettled r) now)
         in currentState w' = Some (newState t) \<and> \<not> isProcessing w' \<and> inFlight w' = []
          \<and> (callback w \<longrightarrow> (\<exists>s. since w w' = [OnStateChange s] \<and> status s = Error))
          \<and> (\<not> callback w \<longrightarrow> since w w' = [])
          \<and> step w' (Trigger c g) = w'\<lparr>trace := trace w' @ [IsDetachedHead, GetGitState]\<rparr>"
proof -
  define w' where "w' = step w (Settle 0 (ScanSettled r) now)"
  let ?es = "fst (handler_scan (called t) (callback w) (callbackOnError w)
    (branch (newState t)) r)"
  have quietly: "callback_throws (callback w) (callbackOnError w) = None"
    using returns by (simp add: callback_throws_def)
  have w': "w' = (perform ?es w)
        \<lparr>currentState := Some (newState t), inFlight := [], isProcessing := False\<rparr>"
    unfolding w'_def by (rule settle_scan_failed [OF task failed quietly])
  have since: "since w w' = ?es"
    by (simp add: w' since_def)
  have err: "callback w \<Longrightarrow> \<exists>s. ?es = [OnStateChange s] \<and> status s = Error"
    using failed_scan_report [OF failed, of "called t" "callbackOnError w" "branch (newState t)"]
    by auto
  have quiet: "\<not> callback w \<Longrightarrow> ?es = []"
    using failed
    by (cases r; cases "called t")
      (simp_all add: handler_scan_def handleBranchChange_scan_def handleCommit_scan_def
        handleBranchChange_catch_def handleCommit_catch_def onStateChange_def)
  have "live c w'"
    using again(1) by (simp add: w' live_def)
  then have repeated: "step w' (Trigger c g) = w'\<lparr>trace := trace w' @ [IsDetachedHead, GetGitState]\<rparr>"
    using again(2-5)
    by (simp add: w' handleGitChange_def perform_def finally_block_def)
  have "currentState w' = Some (newState t)" and "\<not> isProcessing w'" and "inFlight w' = []"
    by (simp_all add: w')
  with repeated err quiet since show ?thesis
    unfolding Let_def w'_def [symmetric] by simp
qed

theorem snapshot_replaced_after_failure_witness:
  "currentState
     (step (run watcher_main
              [Trigger Poll (reads main_bbb), Settle 0 (ManifestSettled (Returns manifest_main)) 1])
        (Settle 0 (ScanSettled (Returns scan_failed)) 2)) = Some main_bbb
   \<and> since
        (step (run watcher_main
                 [Trigger Poll (reads main_bbb), Settle 0 (ManifestSettled (Returns manifest_main)) 1])
           (Settle 0 (ScanSettled (Returns scan_failed)) 2))
        (step (step (run watcher_main
                 [Trigger Poll (reads main_bbb), Settle 0 (ManifestSettled (Returns manifest_main)) 1])
           (Settle 0 (ScanSettled (Returns scan_failed)) 2)) (Trigger Poll (reads main_bbb)))
       = [IsDetachedHead, GetGitState]"
proof -
  have stage: "awaits \<lparr>called = HandleCommit, awaits = AwaitScan, newState = main_bbb\<rparr> = AwaitScan"
    and failed: "scan_fails (Returns scan_failed)"
    and reads: "isDetachedHead (reads main_bbb) = Returns False"
      "getGitState (reads main_bbb) = Returns (Some main_bbb)"
    and same: "branch main_bbb = branch (newState \<lparr>called = HandleCommit, awaits = AwaitScan, newState = main_bbb\<rparr>)"
      "commit main_bbb = commit (newState \<lparr>called = HandleCommit, awaits = AwaitScan, newState = main_bbb\<rparr>)"
    by (simp_all add: scan_failed_def reads_def)
  have returns: "callback (run watcher_main
              [Trigger Poll (reads main_bbb), Settle 0 (ManifestSettled (Returns manifest_main)) 1])
      \<longrightarrow> callbackOnError (run watcher_main
              [Trigger Poll (reads main_bbb), Settle 0 (ManifestSettled (Returns manifest_main)) 1])
          = Returns ()"
    by (simp add: model_defs input_defs Let_def)
  from snapshot_replaced_after_failure
    [OF committing_eval(1) stage failed returns committing_eval(3) reads same, of 2]
  show ?thesis
    unfolding Let_def by (simp add: since_def del: step.simps run_Cons)
qed

text \<open>
  The claim as it was stated (the two functions never rethrow, so that a failed
  reconciliation is not retried while git state stays the same) fails. Here the callback
  throws when it is handed an error status: a new commit on \<^verbatim>\<open>main\<close> is found, the scan
  resolves with \<^verbatim>\<open>success\<close> false, the error report throws out of \<^verbatim>\<open>handleCommit\<close>,
  telemetry records it, the last-known snapshot stays the old one, and the next trigger,
  which finds the same commit, calls \<^verbatim>\<open>handleCommit\<close> again.
\<close>

theorem snapshot_replaced_after_failure_counterexample:
  "currentState
     (run watcher_rethrowing
        [Trigger Poll (reads main_bbb), Settle 0 (ManifestSettled (Returns manifest_main)) 1,
         Settle 0 (ScanSettled (Returns scan_failed)) 2]) = Some main_aaa
   \<and> last (trace
       (run watcher_rethrowing
          [Trigger Poll (reads main_bbb), Settle 0 (ManifestSettled (Returns manifest_main)) 1,
           Settle 0 (ScanSettled (Returns scan_failed)) 2])) = CaptureEvent ''callback failed''
   \<and> inFlight
       (run watcher_rethrowing
          [Trigger Poll (reads main_bbb), Settle 0 (ManifestSettled (Returns manifest_main)) 1,
           Settle 0 (ScanSettled (Returns scan_failed)) 2,
           Trigger Poll (reads main_bbb)])
       = [\<lparr>called = HandleCommit, awaits = AwaitManifest, newState = main_bbb\<rparr>]"
  by (simp add: model_defs input_defs Let_def)

subsection \<open>Disposal\<close>

lemma dispose_dispose: "dispose (dispose w) = dispose w"
  by (simp add: dispose_def)

lemma dispose_not_live: "\<not> live c (dispose w)"
  by (simp add: live_def dispose_def)

lemma dispose_settle: "settle i s now (dispose w) = dispose (settle i s now w)"
  by (simp add: settle_def dispose_def perform_def resume_handleGitChange_def
      rethrown_handleGitChange_def finally_block_def catch_block_def Let_def
      split: awaiting.splits settlement.splits prod.splits scanned.splits)

lemma dispose_progress_tick: "progress_tick i p (dispose w) = dispose (progress_tick i p w)"
  by (simp add: progress_tick_def dispose_def perform_def Let_def split: awaiting.splits)

lemma dispose_step:
  "step (dispose w) e = (if is_trigger e then dispose w else dispose (step w e))"
  by (cases e)
    (simp_all add: dispose_not_live dispose_settle dispose_progress_tick dispose_dispose)

lemma dispose_run: "run (dispose w) evs = dispose (run w (filter (\<lambda>e. \<not> is_trigger e) evs))"
proof (induction evs arbitrary: w)
  case Nil
  show ?case by simp
next
  case (Cons e evs)
  show ?case
  proof (cases "is_trigger e")
    case True
    then show ?thesis
      using Cons.IH [of w] by (simp add: dispose_step del: step.simps)
  next
    case False
    then show ?thesis
      using Cons.IH [of "step w e"] by (simp add: dispose_step del: step.simps)
  qed
qed

text \<open>
  Claim C7, as the code has it. Disposing the watcher stops the poll timer and unsubscribes
  every push watcher, so that no source is live and no trigger runs the handler any more.
  It touches nothing else: the callback stays in place and a reconciliation in flight is
  kept. Every later settlement or progress report of that reconciliation has exactly the
  effects it would have had without the disposal, the statuses handed to
  \<^verbatim>\<open>onStateChange\<close> included.
\<close>

theorem disposal_stops_triggers_only:
  "subscriptions (step w Dispose) = [] \<and> \<not> pollingInterval (step w Dispose)
   \<and> \<not> live c (step w Dispose)
   \<and> callback (step w Dispose) = callback w \<and> inFlight (step w Dispose) = inFlight w
   \<and> run (step w Dispose) evs = dispose (run w (filter (\<lambda>e. \<not> is_trigger e) evs))
   \<and> since (step w Dispose) (run (step w Dispose) evs)
       = since w (run w (filter (\<lambda>e. \<not> is_trigger e) evs))"
proof -
  have "trace (dispose w') = trace w'" for w'
    by (simp add: dispose_def)
  then have "since (dispose w) (dispose (run w (filter (\<lambda>e. \<not> is_trigger e) evs)))
      = since w (run w (filter (\<lambda>e. \<not> is_trigger e) evs))"
    by (simp add: since_def)
  then show ?thesis
    using dispose_not_live [of c w] by (simp add: dispose_run) (simp add: dispose_def)
qed

theorem disposal_stops_triggers_only_witness:
  "subscriptions (step watcher_main Dispose) = []
   \<and> \<not> pollingInterval (step watcher_main Dispose)
   \<and> run (step watcher_main Dispose) [Trigger Poll (reads main_bbb), Trigger HeadWatcher reads_detached]
       = watcher_main\<lparr>subscriptions := [], pollingInterval := False\<rparr>"
proof -
  from disposal_stops_triggers_only
    [of watcher_main Poll "[Trigger Poll (reads main_bbb), Trigger HeadWatcher reads_detached]"]
  show ?thesis by (simp add: dispose_def del: step.simps run_Cons)
qed

text \<open>
  The claim as it was stated (the callback is cleared at disposal, so that a reconciliation in
  flight never invokes it afterwards) fails: a switch to \<^verbatim>\<open>feature-x\<close> is found, the
  watcher is disposed while the manifest fetch is pending, and the reconciliation then
  reports a scanning and a watching status to the callback.
\<close>

theorem callback_cleared_at_disposal_counterexample:
  "callback (run watcher_main [Trigger HeadWatcher (reads feature_x), Dispose])
   \<and> map status
        (reported
          (since (run watcher_main [Trigger HeadWatcher (reads feature_x), Dispose])
             (run watcher_main
                [Trigger HeadWatcher (reads feature_x), Dispose,
                 Settle 0 (ManifestSettled (Throws ''no manifest'')) 1,
                 Settle 0 (ScanSettled (Returns scan_ok)) 2,
                 Settle 0 (ManifestSettled (Returns manifest_main)) 3])))
       = [Scanning, Watching]"
  by (simp add: model_defs input_defs Let_def)

subsection \<open>The two reconciliation functions side by side\<close>

lemma announcing_scans_append [simp]:
  "announcing_scans cb b (es @ es') = announcing_scans cb b es @ announcing_scans cb b es'"
  by (simp add: announcing_scans_def)

lemma announcing_scans_Nil [simp]: "announcing_scans cb b [] = []"
  by (simp add: announcing_scans_def)

lemma announcing_scans_report [simp]:
  "announcing_scans cb b (onStateChange cb' s) = onStateChange cb' s"
  by (simp add: announcing_scans_def onStateChange_def)

lemma announcing_scans_fetch [simp]:
  "announcing_scans cb b [GetServerManifest b'] = [GetServerManifest b']"
  by (simp add: announcing_scans_def)

lemma erase_report [simp]:
  "map erase_message (onStateChange cb s) = onStateChange cb (s\<lparr>message := []\<rparr>)"
  by (simp add: onStateChange_def)

















end
